theory Spec2Isabelle
  imports Main "HOL-Library.Word" "HOL-Library.AList" "HOL-Library.Multiset"
begin

section \<open>Data model (types.ts)\<close>

text \<open>
  A shallow embedding of the vault engine of lockify-vault: \<^verbatim>\<open>src/utils/crypto.ts\<close>,
  \<^verbatim>\<open>src/services/db.ts\<close> and the session, hydrate and CRUD handlers of \<^verbatim>\<open>src/App.tsx\<close>.

  JavaScript strings are modelled by \<open>string\<close>, an \<open>ArrayBuffer\<close> or \<open>Uint8Array\<close> by a
  list of 8-bit words, and \<open>number\<close> timestamps (values of \<open>Date.now()\<close>) by \<open>int\<close>.
  The fields of the two record interfaces carry a prefix (\<open>v_\<close> for \<open>VaultItem\<close>,
  \<open>e_\<close> for \<open>EncryptedVaultItem\<close>) because both interfaces have an \<open>id\<close> and an
  \<open>updatedAt\<close>. An optional field (\<open>username?: string\<close>) is an \<open>option\<close>.
\<close>

type_synonym byte = "8 word"
type_synonym bytes = "byte list"

datatype ItemType = LOGIN | NOTE | CARD | KEY

record VaultItem =
  v_id :: string
  v_type :: ItemType
  v_title :: string
  v_username :: "string option"
  v_password :: "string option"
  v_url :: "string option"
  v_notes :: "string option"
  v_folder :: "string option"
  v_favorite :: "bool option"
  v_createdAt :: int
  v_updatedAt :: int

text \<open>\<open>Partial<VaultItem>\<close>, the argument of \<open>handleSaveItem\<close>: every field may be missing.\<close>

record PartialVaultItem =
  p_id :: "string option"
  p_type :: "ItemType option"
  p_title :: "string option"
  p_username :: "string option"
  p_password :: "string option"
  p_url :: "string option"
  p_notes :: "string option"
  p_folder :: "string option"
  p_favorite :: "bool option"
  p_createdAt :: "int option"
  p_updatedAt :: "int option"

record EncryptedVaultItem =
  e_id :: string
  e_data :: string
  e_iv :: string
  e_salt :: string
  e_ownerId :: string
  e_updatedAt :: int

record UserProfile =
  uid :: string
  email :: "string option"
  displayName :: "string option"

datatype ToastType = success | error

record Toast =
  t_id :: string
  t_message :: string
  t_type :: ToastType

section \<open>The browser platform\<close>

text \<open>
  The code calls built-ins of the browser that are not part of the repository: \<open>window.btoa\<close>
  and \<open>window.atob\<close>, \<open>JSON.stringify\<close> and \<open>JSON.parse\<close>, \<open>TextEncoder\<close> and
  \<open>TextDecoder\<close>, and \<open>window.crypto.subtle\<close>. They are a parameter of the model, a record of
  functions. A built-in that can throw returns an \<open>option\<close>, \<open>None\<close> being the exception.
  \<open>'k\<close> is the type of an AES-GCM \<open>CryptoKey\<close>, \<open>'pk\<close> of an imported PBKDF2 password key.
\<close>

datatype HashName = SHA_256

record Pbkdf2Params =
  pb_salt :: bytes
  pb_iterations :: nat
  pb_hash :: HashName

record ('k, 'pk) platform =
  btoa :: "string \<Rightarrow> string"
  atob :: "string \<Rightarrow> string option"
  json_stringify :: "VaultItem \<Rightarrow> string"
  json_parse :: "string \<Rightarrow> VaultItem option"
  utf8_encode :: "string \<Rightarrow> bytes"
  utf8_decode :: "bytes \<Rightarrow> string"
  subtle_importKey :: "bytes \<Rightarrow> 'pk option"
  subtle_deriveKey :: "Pbkdf2Params \<Rightarrow> 'pk \<Rightarrow> nat \<Rightarrow> 'k option"
  subtle_encrypt :: "'k \<Rightarrow> bytes \<Rightarrow> bytes \<Rightarrow> bytes option"
  subtle_decrypt :: "'k \<Rightarrow> bytes \<Rightarrow> bytes \<Rightarrow> bytes option"

text \<open>
  Everything outside the React state that the handlers read or change: the Firestore collection
  \<open>vault_items\<close> (document id and data, in the order \<open>getDocs\<close> lists them), whether a
  Firestore call succeeds, the readings of \<open>Date.now()\<close>, the values of
  \<open>crypto.randomUUID()\<close>, the bytes of \<open>crypto.getRandomValues\<close>, and the lines written with
  \<open>console.error\<close>. Each source of fresh values is an oracle (the n-th value) and a counter
  of the values consumed.
\<close>

record world =
  docs :: "(string \<times> EncryptedVaultItem) list"
  storeUp :: bool
  clock :: "nat \<Rightarrow> int"
  reads :: nat
  uuids :: "nat \<Rightarrow> string"
  minted :: nat
  entropy :: "nat \<Rightarrow> byte"
  drawn :: nat
  console :: "string list"

datatype failure =
    FirestoreError
  | InvalidCharacterError
  | OperationError
  | SyntaxError
  | DecryptError

text \<open>\<open>console.error(e)\<close> writes the name of what was thrown.\<close>

fun failureName :: "failure \<Rightarrow> string" where
  "failureName FirestoreError = ''FirestoreError''"
| "failureName InvalidCharacterError = ''InvalidCharacterError''"
| "failureName OperationError = ''OperationError''"
| "failureName SyntaxError = ''SyntaxError''"
| "failureName DecryptError = ''Error: Failed to decrypt item. Wrong password?''"

definition Date_now :: "world \<Rightarrow> int \<times> world" where
  "Date_now w = (clock w (reads w), w\<lparr>reads := Suc (reads w)\<rparr>)"

definition randomUUID :: "world \<Rightarrow> string \<times> world" where
  "randomUUID w = (uuids w (minted w), w\<lparr>minted := Suc (minted w)\<rparr>)"

definition getRandomValues :: "nat \<Rightarrow> world \<Rightarrow> bytes \<times> world" where
  "getRandomValues n w =
     (map (entropy w) [drawn w ..< drawn w + n], w\<lparr>drawn := drawn w + n\<rparr>)"

definition console_error :: "string \<Rightarrow> world \<Rightarrow> world" where
  "console_error line w = w\<lparr>console := console w @ [line]\<rparr>"

section \<open>utils/crypto.ts\<close>

text \<open>
  \<open>bufferToBase64\<close> appends \<open>String.fromCharCode(bytes[i])\<close> for every byte and applies
  \<open>btoa\<close>; \<open>base64ToBuffer\<close> applies \<open>atob\<close> and stores \<open>charCodeAt(i)\<close> into a
  \<open>Uint8Array\<close>.
\<close>

definition bufferToBase64 :: "('k, 'pk) platform \<Rightarrow> bytes \<Rightarrow> string" where
  "bufferToBase64 P buffer = btoa P (map (\<lambda>b. char_of (unat b)) buffer)"

definition base64ToBuffer :: "('k, 'pk) platform \<Rightarrow> string \<Rightarrow> failure + bytes" where
  "base64ToBuffer P base64 =
     (case atob P base64 of
        None \<Rightarrow> Inl InvalidCharacterError
      | Some binaryString \<Rightarrow> Inr (map (\<lambda>c. word_of_nat (of_char c)) binaryString))"

definition stringToSalt :: "('k, 'pk) platform \<Rightarrow> string \<Rightarrow> failure + bytes" where
  "stringToSalt P saltStr = base64ToBuffer P saltStr"

definition getPasswordKey :: "('k, 'pk) platform \<Rightarrow> string \<Rightarrow> failure + 'pk" where
  "getPasswordKey P password =
     (case subtle_importKey P (utf8_encode P password) of
        None \<Rightarrow> Inl OperationError
      | Some passwordKey \<Rightarrow> Inr passwordKey)"

definition deriveKey :: "('k, 'pk) platform \<Rightarrow> string \<Rightarrow> bytes \<Rightarrow> failure + 'k" where
  "deriveKey P password salt =
     (case getPasswordKey P password of
        Inl e \<Rightarrow> Inl e
      | Inr passwordKey \<Rightarrow>
          (case subtle_deriveKey P
                  \<lparr>pb_salt = salt, pb_iterations = 100000, pb_hash = SHA_256\<rparr>
                  passwordKey 256 of
             None \<Rightarrow> Inl OperationError
           | Some key \<Rightarrow> Inr key))"

record EncryptedPayload =
  cipherText :: string
  iv :: string

definition encryptData ::
  "('k, 'pk) platform \<Rightarrow> VaultItem \<Rightarrow> 'k \<Rightarrow> world \<Rightarrow> (failure + EncryptedPayload) \<times> world" where
  "encryptData P data masterKey w =
     (let encodedData = utf8_encode P (json_stringify P data);
          (nonce, w1) = getRandomValues 12 w
      in case subtle_encrypt P masterKey nonce encodedData of
           None \<Rightarrow> (Inl OperationError, w1)
         | Some encryptedContent \<Rightarrow>
             (Inr \<lparr>cipherText = bufferToBase64 P encryptedContent,
                   iv = bufferToBase64 P nonce\<rparr>, w1))"

text \<open>The body of the \<open>try\<close> block of \<open>decryptData\<close>.\<close>

definition decryptData_try ::
  "('k, 'pk) platform \<Rightarrow> string \<Rightarrow> string \<Rightarrow> 'k \<Rightarrow> failure + VaultItem" where
  "decryptData_try P cipher ivStr masterKey =
     (case base64ToBuffer P ivStr of
        Inl e \<Rightarrow> Inl e
      | Inr nonce \<Rightarrow>
          (case base64ToBuffer P cipher of
             Inl e \<Rightarrow> Inl e
           | Inr encryptedData \<Rightarrow>
               (case subtle_decrypt P masterKey nonce encryptedData of
                  None \<Rightarrow> Inl OperationError
                | Some decryptedContent \<Rightarrow>
                    (case json_parse P (utf8_decode P decryptedContent) of
                       None \<Rightarrow> Inl SyntaxError
                     | Some v \<Rightarrow> Inr v))))"

text \<open>
  \<open>decryptData\<close>: whatever the \<open>try\<close> block throws is logged and replaced by
  \<open>Error("Failed to decrypt item. Wrong password?")\<close>, here \<open>DecryptError\<close>.
\<close>

definition decryptData ::
  "('k, 'pk) platform \<Rightarrow> string \<Rightarrow> string \<Rightarrow> 'k \<Rightarrow> world \<Rightarrow> (failure + VaultItem) \<times> world" where
  "decryptData P cipher ivStr masterKey w =
     (case decryptData_try P cipher ivStr masterKey of
        Inr v \<Rightarrow> (Inr v, w)
      | Inl e \<Rightarrow> (Inl DecryptError, console_error ''Decryption failed'' w))"

section \<open>services/db.ts\<close>

text \<open>
  \<open>FirestoreDB\<close>: each method awaits one Firestore call and, when that call rejects, logs and
  rethrows. \<open>setDoc\<close> writes the document named by \<open>item.id\<close>, \<open>getDocs\<close> lists the
  documents whose \<open>ownerId\<close> is the given uid, \<open>deleteDoc\<close> removes the document of that
  name.
\<close>

definition db_saveItem :: "EncryptedVaultItem \<Rightarrow> world \<Rightarrow> (failure + unit) \<times> world" where
  "db_saveItem item w =
     (if storeUp w
      then (Inr (), w\<lparr>docs := AList.update (e_id item) item (docs w)\<rparr>)
      else (Inl FirestoreError, console_error ''Error saving item to Firestore:'' w))"

definition db_getItems :: "string \<Rightarrow> world \<Rightarrow> (failure + EncryptedVaultItem list) \<times> world" where
  "db_getItems u w =
     (if storeUp w
      then (Inr (filter (\<lambda>d. e_ownerId d = u) (map snd (docs w))), w)
      else (Inl FirestoreError, console_error ''Error fetching items from Firestore:'' w))"

definition db_deleteItem :: "string \<Rightarrow> world \<Rightarrow> (failure + unit) \<times> world" where
  "db_deleteItem i w =
     (if storeUp w
      then (Inr (), w\<lparr>docs := AList.delete i (docs w)\<rparr>)
      else (Inl FirestoreError, console_error ''Error deleting item from Firestore:'' w))"

section \<open>App.tsx: state, session and hydrate\<close>

text \<open>
  The React state of \<open>App\<close> that the engine reads or writes. A handler takes the state and
  the world and returns both; it never rejects, since each one catches what it awaits.
\<close>

record 'k AppState =
  user :: "UserProfile option"
  authLoading :: bool
  masterKey :: "'k option"
  isVaultLocked :: bool
  items :: "VaultItem list"
  loadingItems :: bool
  toasts :: "Toast list"
  isModalOpen :: bool
  editingItem :: "VaultItem option"

definition initialState :: "'k AppState" where
  "initialState =
     \<lparr>user = None, authLoading = True, masterKey = None, isVaultLocked = True, items = [],
      loadingItems = False, toasts = [], isModalOpen = False, editingItem = None\<rparr>"

text \<open>\<open>Number.prototype.toString\<close> on an integer: its decimal digits.\<close>

fun digits :: "nat \<Rightarrow> string" where
  "digits n = (if n < 10 then [char_of (48 + n)] else digits (n div 10) @ [char_of (48 + n mod 10)])"

declare digits.simps [simp del]

definition toString :: "int \<Rightarrow> string" where
  "toString i = (if i < 0 then CHR ''-'' # digits (nat (- i)) else digits (nat i))"

text \<open>
  \<open>showToast\<close> appends a toast whose id is \<open>Date.now().toString()\<close>. The timer it starts
  removes the toast three seconds later, which is \<open>expireToast\<close>.
\<close>

definition showToast :: "string \<Rightarrow> ToastType \<Rightarrow> 'k AppState \<times> world \<Rightarrow> 'k AppState \<times> world" where
  "showToast message ty sw =
     (case sw of (s, w) \<Rightarrow>
        (let (now, w1) = Date_now w;
             ident = toString now
         in (s\<lparr>toasts := toasts s @ [\<lparr>t_id = ident, t_message = message, t_type = ty\<rparr>]\<rparr>, w1)))"

definition expireToast :: "string \<Rightarrow> 'k AppState \<Rightarrow> 'k AppState" where
  "expireToast ident s = s\<lparr>toasts := filter (\<lambda>t. t_id t \<noteq> ident) (toasts s)\<rparr>"

text \<open>
  The callback given to \<open>onAuthStateChanged\<close>, with the user Firebase reports (\<open>None\<close> after
  a sign-out). The display name is
  \<open>currentUser.displayName || currentUser.email?.split('@')[0] || 'User'\<close>.
\<close>

definition truthy :: "string option \<Rightarrow> bool" where
  "truthy x = (case x of None \<Rightarrow> False | Some t \<Rightarrow> t \<noteq> [])"

definition onAuthStateChanged :: "UserProfile option \<Rightarrow> 'k AppState \<Rightarrow> 'k AppState" where
  "onAuthStateChanged currentUser s =
     (case currentUser of
        Some cu \<Rightarrow>
          (let local = map_option (takeWhile (\<lambda>c. c \<noteq> CHR ''@'')) (email cu);
               name = (if truthy (displayName cu) then displayName cu
                       else if truthy local then local
                       else Some ''User'')
           in s\<lparr>user := Some \<lparr>uid = uid cu, email = email cu, displayName = name\<rparr>,
                 authLoading := False\<rparr>)
      | None \<Rightarrow>
          s\<lparr>user := None, masterKey := None, isVaultLocked := True, items := [],
            authLoading := False\<rparr>)"

text \<open>
  The loop of \<open>loadVaultItems\<close> over the fetched envelopes: a decrypted record is pushed with
  its \<open>id\<close> replaced by the envelope's, \<open>{...data, id: encItem.id}\<close>; a failure is logged
  and the loop goes on.
\<close>

fun decryptLoop ::
  "('k, 'pk) platform \<Rightarrow> 'k \<Rightarrow> EncryptedVaultItem list \<Rightarrow> VaultItem list \<Rightarrow> world
     \<Rightarrow> VaultItem list \<times> world" where
  "decryptLoop P key [] decryptedItems w = (decryptedItems, w)"
| "decryptLoop P key (encItem # rest) decryptedItems w =
     (case decryptData P (e_data encItem) (e_iv encItem) key w of
        (Inr data, w1) \<Rightarrow>
          decryptLoop P key rest (decryptedItems @ [data\<lparr>v_id := e_id encItem\<rparr>]) w1
      | (Inl e, w1) \<Rightarrow>
          decryptLoop P key rest decryptedItems
            (console_error (''Failed to decrypt item '' @ e_id encItem) w1))"

text \<open>
  \<open>Array.prototype.sort\<close> is stable; with the comparator
  \<open>(a, b) => b.updatedAt - a.updatedAt\<close> it is the stable sort by descending \<open>updatedAt\<close>.
\<close>

definition sortByUpdatedDesc :: "VaultItem list \<Rightarrow> VaultItem list" where
  "sortByUpdatedDesc xs = sort_key (\<lambda>a. - v_updatedAt a) xs"

text \<open>
  \<open>loadVaultItems\<close> runs up to \<open>await db.getItems(uid)\<close> (\<open>loadVaultItems_begin\<close>, which
  yields what the fetch will deliver) and goes on when the fetch has settled
  (\<open>loadVaultItems_resume\<close>). Other handlers can run between the two.
  \<open>loadVaultItems\<close> is the run with nothing in between.
\<close>

definition loadVaultItems_begin ::
  "string \<Rightarrow> 'k AppState \<times> world \<Rightarrow> (failure + EncryptedVaultItem list) \<times> 'k AppState \<times> world" where
  "loadVaultItems_begin u sw =
     (case sw of (s, w) \<Rightarrow>
        (let (fetched, w1) = db_getItems u w
         in (fetched, s\<lparr>loadingItems := True\<rparr>, w1)))"

definition loadVaultItems_resume ::
  "('k, 'pk) platform \<Rightarrow> 'k \<Rightarrow> failure + EncryptedVaultItem list \<Rightarrow> 'k AppState \<times> world
     \<Rightarrow> 'k AppState \<times> world" where
  "loadVaultItems_resume P key fetched sw =
     (case sw of (s, w) \<Rightarrow>
        (case fetched of
           Inr encryptedItems \<Rightarrow>
             (let (decryptedItems, w1) = decryptLoop P key encryptedItems [] w
              in (s\<lparr>items := sortByUpdatedDesc decryptedItems, loadingItems := False\<rparr>, w1))
         | Inl e \<Rightarrow>
             (let (s1, w1) = showToast ''Error loading vault from cloud'' error
                               (s, console_error (failureName e) w)
              in (s1\<lparr>loadingItems := False\<rparr>, w1))))"

definition loadVaultItems ::
  "('k, 'pk) platform \<Rightarrow> string \<Rightarrow> 'k \<Rightarrow> 'k AppState \<times> world \<Rightarrow> 'k AppState \<times> world" where
  "loadVaultItems P u key sw =
     (let (fetched, sw1) = loadVaultItems_begin u sw
      in loadVaultItems_resume P key fetched sw1)"

text \<open>
  \<open>unlockVault\<close>: without a user it returns; otherwise it decodes the salt
  \<open>window.btoa(user.uid + "_salt_fixed_123").substring(0, 24)\<close>, derives the key, stores it,
  unlocks and starts \<open>loadVaultItems\<close>, which here runs to its end. Whatever is thrown is
  logged and shown as a toast.
\<close>

definition unlockVault ::
  "('k, 'pk) platform \<Rightarrow> string \<Rightarrow> 'k AppState \<times> world \<Rightarrow> 'k AppState \<times> world" where
  "unlockVault P password sw =
     (case sw of (s, w) \<Rightarrow>
        (case user s of
           None \<Rightarrow> (s, w)
         | Some u \<Rightarrow>
             (case stringToSalt P (take 24 (btoa P (uid u @ ''_salt_fixed_123''))) of
                Inl e \<Rightarrow>
                  showToast ''Failed to unlock vault'' error (s, console_error (failureName e) w)
              | Inr deterministicSalt \<Rightarrow>
                  (case deriveKey P password deterministicSalt of
                     Inl e \<Rightarrow>
                       showToast ''Failed to unlock vault'' error
                         (s, console_error (failureName e) w)
                   | Inr key \<Rightarrow>
                       loadVaultItems P (uid u) key
                         (s\<lparr>masterKey := Some key, isVaultLocked := False\<rparr>, w)))))"

section \<open>App.tsx: CRUD\<close>

text \<open>\<open>Array.prototype.findIndex\<close>: the first index whose element satisfies the test, or -1.\<close>

fun findIndex :: "('a \<Rightarrow> bool) \<Rightarrow> 'a list \<Rightarrow> int" where
  "findIndex p [] = - 1"
| "findIndex p (x # xs) =
     (if p x then 0 else (let r = findIndex p xs in if r < 0 then - 1 else r + 1))"

text \<open>The updater that \<open>handleSaveItem\<close> passes to \<open>setItems\<close>.\<close>

definition upsertItems :: "VaultItem \<Rightarrow> VaultItem list \<Rightarrow> VaultItem list" where
  "upsertItems newItem prev =
     (let idx = findIndex (\<lambda>i. v_id i = v_id newItem) prev
      in if idx \<ge> 0 then prev[nat idx := newItem] else newItem # prev)"

text \<open>\<open>x || d\<close> on an optional string: the empty string is falsy.\<close>

definition orElse :: "string option \<Rightarrow> string \<Rightarrow> string" where
  "orElse x d = (case x of None \<Rightarrow> d | Some t \<Rightarrow> if t = [] then d else t)"

text \<open>
  The object literal \<open>newItem\<close> of \<open>handleSaveItem\<close>, evaluated field by field:
  \<open>crypto.randomUUID()\<close> is called only when \<open>item.id\<close> is falsy (missing or empty), the
  first \<open>Date.now()\<close> only when \<open>item.createdAt\<close> is falsy (missing or 0), the second
  \<open>Date.now()\<close> always.
\<close>

definition newItemOf :: "PartialVaultItem \<Rightarrow> world \<Rightarrow> VaultItem \<times> world" where
  "newItemOf item w =
     (let (ident, w1) =
            (case p_id item of
               None \<Rightarrow> randomUUID w
             | Some i \<Rightarrow> if i = [] then randomUUID w else (i, w));
          (created, w2) =
            (case p_createdAt item of
               None \<Rightarrow> Date_now w1
             | Some c \<Rightarrow> if c = 0 then Date_now w1 else (c, w1));
          (updated, w3) = Date_now w2
      in (\<lparr>v_id = ident,
           v_type = (case p_type item of None \<Rightarrow> LOGIN | Some t \<Rightarrow> t),
           v_title = orElse (p_title item) ''Untitled'',
           v_username = Some (orElse (p_username item) []),
           v_password = Some (orElse (p_password item) []),
           v_url = Some (orElse (p_url item) []),
           v_notes = Some (orElse (p_notes item) []),
           v_folder = Some (orElse (p_folder item) []),
           v_favorite = Some (case p_favorite item of None \<Rightarrow> False | Some f \<Rightarrow> f),
           v_createdAt = created,
           v_updatedAt = updated\<rparr>, w3))"

text \<open>
  \<open>handleSaveItem\<close>. The guard \<open>if (!user || !masterKey) return\<close> comes first. The
  \<open>try\<close> block encrypts, saves to the store and only then updates the state; its
  \<open>catch\<close> logs and shows a toast.
\<close>

definition handleSaveItem ::
  "('k, 'pk) platform \<Rightarrow> PartialVaultItem \<Rightarrow> 'k AppState \<times> world \<Rightarrow> 'k AppState \<times> world" where
  "handleSaveItem P item sw =
     (case sw of (s, w) \<Rightarrow>
        (case (user s, masterKey s) of
           (Some u, Some key) \<Rightarrow>
             (let (newItem, w3) = newItemOf item w;
                  (encrypted, w4) = encryptData P newItem key w3
              in case encrypted of
                   Inl e \<Rightarrow>
                     showToast ''Failed to save item'' error (s, console_error (failureName e) w4)
                 | Inr payload \<Rightarrow>
                     (let encryptedItem =
                            \<lparr>e_id = v_id newItem, e_data = cipherText payload, e_iv = iv payload,
                             e_salt = [], e_ownerId = uid u, e_updatedAt = v_updatedAt newItem\<rparr>;
                          (saved, w5) = db_saveItem encryptedItem w4
                      in case saved of
                           Inl e \<Rightarrow>
                             showToast ''Failed to save item'' error
                               (s, console_error (failureName e) w5)
                         | Inr _ \<Rightarrow>
                             showToast ''Item saved securely'' success
                               (s\<lparr>items := upsertItems newItem (items s),
                                  isModalOpen := False, editingItem := None\<rparr>, w5)))
         | _ \<Rightarrow> (s, w)))"

text \<open>
  \<open>handleDeleteItem\<close>; \<open>confirmed\<close> is the answer to \<open>confirm(...)\<close>. There is no test of
  the session in it.
\<close>

definition handleDeleteItem ::
  "string \<Rightarrow> bool \<Rightarrow> 'k AppState \<times> world \<Rightarrow> 'k AppState \<times> world" where
  "handleDeleteItem i confirmed sw =
     (case sw of (s, w) \<Rightarrow>
        (if confirmed
         then (let (deleted, w1) = db_deleteItem i w
               in case deleted of
                    Inl e \<Rightarrow> showToast ''Failed to delete item'' error (s, w1)
                  | Inr _ \<Rightarrow>
                      showToast ''Item deleted'' success
                        (s\<lparr>items := filter (\<lambda>x. v_id x \<noteq> i) (items s)\<rparr>, w1))
         else (s, w)))"

section \<open>Derived notions\<close>

text \<open>
  What the loop of \<open>loadVaultItems\<close> does with one envelope, read off \<open>decryptData_try\<close>:
  whether decryption fails, the record pushed when it succeeds, and the two lines logged when
  it fails (one by \<open>decryptData\<close>, one by the loop).
\<close>

definition decryptFails :: "('k, 'pk) platform \<Rightarrow> 'k \<Rightarrow> EncryptedVaultItem \<Rightarrow> bool" where
  "decryptFails P key e =
     (case decryptData_try P (e_data e) (e_iv e) key of Inl _ \<Rightarrow> True | Inr _ \<Rightarrow> False)"

definition hydrated :: "('k, 'pk) platform \<Rightarrow> 'k \<Rightarrow> EncryptedVaultItem \<Rightarrow> VaultItem option" where
  "hydrated P key e =
     (case decryptData_try P (e_data e) (e_iv e) key of
        Inl _ \<Rightarrow> None
      | Inr d \<Rightarrow> Some (d\<lparr>v_id := e_id e\<rparr>))"

definition failureLines :: "('k, 'pk) platform \<Rightarrow> 'k \<Rightarrow> EncryptedVaultItem \<Rightarrow> string list" where
  "failureLines P key e =
     (if decryptFails P key e
      then [''Decryption failed'', ''Failed to decrypt item '' @ e_id e]
      else [])"

text \<open>
  \<open>encryptEach\<close> is a run of successive \<open>encryptData\<close> calls under one key, one per
  record, each starting in the world the one before left. \<open>noncesDrawn n w\<close> are the
  values that \<open>n\<close> successive calls of \<open>getRandomValues(new Uint8Array(12))\<close> return from
  world \<open>w\<close>, and \<open>payloads\<close> are the results of the calls that succeeded.
\<close>

fun encryptEach ::
  "('k, 'pk) platform \<Rightarrow> 'k \<Rightarrow> VaultItem list \<Rightarrow> world \<Rightarrow> (failure + EncryptedPayload) list \<times> world" where
  "encryptEach P key [] w = ([], w)"
| "encryptEach P key (d # ds) w =
     (let (r, w1) = encryptData P d key w;
          (rs, w2) = encryptEach P key ds w1
      in (r # rs, w2))"

fun noncesDrawn :: "nat \<Rightarrow> world \<Rightarrow> bytes list" where
  "noncesDrawn 0 w = []"
| "noncesDrawn (Suc n) w = fst (getRandomValues 12 w) # noncesDrawn n (snd (getRandomValues 12 w))"

definition payloads :: "(failure + EncryptedPayload) list \<Rightarrow> EncryptedPayload list" where
  "payloads rs = List.map_filter (\<lambda>r. case r of Inl _ \<Rightarrow> None | Inr p \<Rightarrow> Some p) rs"

text \<open>
  \<open>envelopeOf\<close> is the object \<open>encryptedItem\<close> that \<open>handleSaveItem\<close> hands to
  \<open>db.saveItem\<close>; \<open>shown\<close> lists the message and kind of the toasts on display.
\<close>

definition envelopeOf :: "UserProfile \<Rightarrow> VaultItem \<Rightarrow> EncryptedPayload \<Rightarrow> EncryptedVaultItem" where
  "envelopeOf u newItem payload =
     \<lparr>e_id = v_id newItem, e_data = cipherText payload, e_iv = iv payload,
      e_salt = [], e_ownerId = uid u, e_updatedAt = v_updatedAt newItem\<rparr>"

definition shown :: "'k AppState \<Rightarrow> (string \<times> ToastType) list" where
  "shown s = map (\<lambda>t. (t_message t, t_type t)) (toasts s)"

section \<open>A small platform and sample data\<close>

text \<open>
  A platform on which the model can be run: base64 is the identity, "JSON" is one character
  for \<open>updatedAt\<close> followed by the title, a key is one byte, and a ciphertext is the key
  byte, the nonce and the plaintext, so that decryption with another key or nonce fails.
\<close>

definition toyBlank :: VaultItem where
  "toyBlank =
     \<lparr>v_id = ''embedded'', v_type = LOGIN, v_title = [], v_username = None,
      v_password = None, v_url = None, v_notes = None, v_folder = None, v_favorite = None,
      v_createdAt = 1, v_updatedAt = 1\<rparr>"

definition toyPlatform :: "(byte, bytes) platform" where
  "toyPlatform =
     \<lparr>btoa = (\<lambda>s. s),
      atob = (\<lambda>s. Some s),
      json_stringify = (\<lambda>r. char_of (nat (v_updatedAt r)) # v_title r),
      json_parse = (\<lambda>s. case s of
                          [] \<Rightarrow> None
                        | c # t \<Rightarrow> Some (toyBlank\<lparr>v_title := t, v_updatedAt := of_char c\<rparr>)),
      utf8_encode = map (\<lambda>c. word_of_nat (of_char c)),
      utf8_decode = map (\<lambda>b. char_of (unat b)),
      subtle_importKey = (\<lambda>raw. Some raw),
      subtle_deriveKey = (\<lambda>params passwordKey len. Some (word_of_nat (length passwordKey))),
      subtle_encrypt = (\<lambda>k nonce m. Some (k # nonce @ m)),
      subtle_decrypt = (\<lambda>k nonce c. case c of
                             [] \<Rightarrow> None
                           | t # rest \<Rightarrow>
                               if t = k \<and> take (length nonce) rest = nonce
                               then Some (drop (length nonce) rest) else None)\<rparr>"

definition toyWorld :: world where
  "toyWorld =
     \<lparr>docs = [], storeUp = True, clock = (\<lambda>n. 1000 + int n), reads = 0,
      uuids = (\<lambda>n. ''uuid-'' @ digits n), minted = 0,
      entropy = (\<lambda>n. word_of_nat (n div 12)), drawn = 0, console = []\<rparr>"

text \<open>
  Three envelopes of owner \<open>u1\<close>. Under key 7, \<open>env1\<close> holds title \<open>x\<close> with
  \<open>updatedAt = 5\<close>, \<open>env3\<close> holds title \<open>y\<close> with \<open>updatedAt = 9\<close>, and \<open>env2\<close>
  is \<open>env1\<close> with its first ciphertext byte changed.
\<close>

definition env1 :: EncryptedVaultItem where
  "env1 = \<lparr>e_id = ''a'', e_data = [CHR 0x07, CHR 0x00, CHR 0x05, CHR ''x''], e_iv = [CHR 0x00],
           e_salt = [], e_ownerId = ''u1'', e_updatedAt = 5\<rparr>"

definition env2 :: EncryptedVaultItem where
  "env2 = \<lparr>e_id = ''b'', e_data = [CHR 0x08, CHR 0x00, CHR 0x05, CHR ''x''], e_iv = [CHR 0x00],
           e_salt = [], e_ownerId = ''u1'', e_updatedAt = 5\<rparr>"

definition env3 :: EncryptedVaultItem where
  "env3 = \<lparr>e_id = ''c'', e_data = [CHR 0x07, CHR 0x00, CHR 0x09, CHR ''y''], e_iv = [CHR 0x00],
           e_salt = [], e_ownerId = ''u1'', e_updatedAt = 9\<rparr>"

definition threeDocs :: world where
  "threeDocs = toyWorld\<lparr>docs := [(''a'', env1), (''b'', env2), (''c'', env3)]\<rparr>"

text \<open>A fourth envelope, with the \<open>updatedAt\<close> of \<open>env1\<close> and title \<open>z\<close>.\<close>

definition env4 :: EncryptedVaultItem where
  "env4 = \<lparr>e_id = ''d'', e_data = [CHR 0x07, CHR 0x00, CHR 0x05, CHR ''z''], e_iv = [CHR 0x00],
           e_salt = [], e_ownerId = ''u1'', e_updatedAt = 5\<rparr>"

definition fourDocs :: world where
  "fourDocs = toyWorld\<lparr>docs := [(''a'', env1), (''b'', env2), (''c'', env3), (''d'', env4)]\<rparr>"

text \<open>A record that the "JSON" of the small platform represents exactly.\<close>

definition example :: VaultItem where
  "example = toyBlank\<lparr>v_title := ''Example'', v_updatedAt := 5\<rparr>"

definition threeItems :: "VaultItem list" where
  "threeItems = [example, example\<lparr>v_title := ''Second''\<rparr>, example]"

text \<open>
  A signed-in user, her session before and after unlocking with key 7, and records to save:
  a new login, and an edit of the record \<open>example\<close> (same id, created at 500).
\<close>

definition alice :: UserProfile where
  "alice = \<lparr>uid = ''u1'', email = Some ''alice@example.org'', displayName = Some ''alice''\<rparr>"

definition lockedState :: "byte AppState" where
  "lockedState = initialState\<lparr>user := Some alice, authLoading := False\<rparr>"

definition unlockedState :: "byte AppState" where
  "unlockedState = lockedState\<lparr>masterKey := Some 7, isVaultLocked := False\<rparr>"

definition emptyItem :: PartialVaultItem where
  "emptyItem =
     \<lparr>p_id = None, p_type = None, p_title = None, p_username = None, p_password = None,
      p_url = None, p_notes = None, p_folder = None, p_favorite = None, p_createdAt = None,
      p_updatedAt = None\<rparr>"

definition loginItem :: PartialVaultItem where
  "loginItem = emptyItem\<lparr>p_type := Some LOGIN, p_title := Some ''Example'',
     p_username := Some ''a@b.com'', p_password := Some ''p@ss''\<rparr>"



definition loadedState :: "byte AppState" where
  "loadedState = unlockedState\<lparr>items := [example]\<rparr>"

text \<open>
  A hydrate interrupted by a sign-out: \<open>loadVaultItems\<close> has started and awaits the fetch
  (\<open>inFlight\<close>), Firebase reports the sign-out (\<open>afterLogout\<close>), then the fetch settles
  and \<open>loadVaultItems\<close> goes on (\<open>afterResume\<close>).
\<close>

definition inFlight :: "(failure + EncryptedVaultItem list) \<times> byte AppState \<times> world" where
  "inFlight = loadVaultItems_begin ''u1'' (unlockedState, threeDocs)"

definition afterLogout :: "byte AppState" where
  "afterLogout = onAuthStateChanged None (fst (snd inFlight))"

definition afterResume :: "byte AppState \<times> world" where
  "afterResume = loadVaultItems_resume toyPlatform 7 (fst inFlight) (afterLogout, snd (snd inFlight))"

section \<open>Properties\<close>

subsection \<open>The decrypt loop\<close>

lemma decryptLoop_items:
  "fst (decryptLoop P key batch acc w) = acc @ List.map_filter (hydrated P key) batch"
  by (induction batch arbitrary: acc w)
     (auto simp: decryptData_def hydrated_def List.map_filter_simps split: sum.splits)

lemma decryptLoop_world:
  "snd (decryptLoop P key batch acc w) =
     w\<lparr>console := console w @ concat (map (failureLines P key) batch)\<rparr>"
  by (induction batch arbitrary: acc w)
     (auto simp: decryptData_def failureLines_def decryptFails_def console_error_def
           split: sum.splits)

lemma resume_fetched:
  "loadVaultItems_resume P key (Inr batch) (s, w) =
     (s\<lparr>items := sortByUpdatedDesc (List.map_filter (hydrated P key) batch),
        loadingItems := False\<rparr>,
      w\<lparr>console := console w @ concat (map (failureLines P key) batch)\<rparr>)"
  using decryptLoop_items [of P key batch "[]" w] decryptLoop_world [of P key batch "[]" w]
  by (cases "decryptLoop P key batch [] w") (simp add: loadVaultItems_resume_def)

lemma loadVaultItems_fetched:
  assumes "fst (db_getItems u w) = Inr batch"
  shows "loadVaultItems P u key (s, w) =
     (s\<lparr>items := sortByUpdatedDesc (List.map_filter (hydrated P key) batch),
        loadingItems := False\<rparr>,
      w\<lparr>console := console w @ concat (map (failureLines P key) batch)\<rparr>)"
proof -
  from assms have "db_getItems u w = (Inr batch, w)"
    by (auto simp: db_getItems_def split: if_splits)
  then show ?thesis
    by (simp add: loadVaultItems_def loadVaultItems_begin_def resume_fetched)
qed

lemma set_map_filter: "set (List.map_filter f xs) = {y. \<exists>x \<in> set xs. f x = Some y}"
  by (induction xs) (auto simp: List.map_filter_simps split: option.splits)

lemma length_map_filter_hydrated:
  "length (List.map_filter (hydrated P key) batch) + length (filter (decryptFails P key) batch)
     = length batch"
  by (induction batch)
     (auto simp: List.map_filter_simps hydrated_def decryptFails_def split: sum.splits)

lemma map_id_hydrated:
  "map v_id (List.map_filter (hydrated P key) batch)
     = map e_id (filter (\<lambda>e. \<not> decryptFails P key e) batch)"
  by (induction batch)
     (auto simp: List.map_filter_simps hydrated_def decryptFails_def split: sum.splits)

subsection \<open>C1: hydrate isolates decrypt failures\<close>

text \<open>
  Claim C1, as amended. For every batch \<open>getItems\<close> delivers, \<open>loadVaultItems\<close> decrypts each
  envelope on its own: every envelope that decrypts puts its record (with the envelope's id)
  into the working set whatever happens to the others, and the records in the working set
  together with the envelopes that failed make up the whole batch. A failure is written to
  the console, two lines per failed envelope, and nowhere else: the call changes only
  \<open>items\<close> and \<open>loadingItems\<close> of the state, so no count of failures is returned or kept.
\<close>

theorem hydrate_isolates_failures:
  assumes "fst (db_getItems u w) = Inr batch"
  shows "(\<forall>e \<in> set batch. \<forall>d. decryptData_try P (e_data e) (e_iv e) key = Inr d \<longrightarrow>
             d\<lparr>v_id := e_id e\<rparr> \<in> set (items (fst (loadVaultItems P u key (s, w)))))
       \<and> length (items (fst (loadVaultItems P u key (s, w))))
           + length (filter (decryptFails P key) batch) = length batch
       \<and> console (snd (loadVaultItems P u key (s, w)))
           = console w @ concat (map (failureLines P key) batch)
       \<and> fst (loadVaultItems P u key (s, w))
           = s\<lparr>items := items (fst (loadVaultItems P u key (s, w))), loadingItems := False\<rparr>"
proof -
  have "d\<lparr>v_id := e_id e\<rparr> \<in> set (List.map_filter (hydrated P key) batch)"
    if "e \<in> set batch" "decryptData_try P (e_data e) (e_iv e) key = Inr d" for e d
    using that by (force simp: set_map_filter hydrated_def)
  then show ?thesis
    using length_map_filter_hydrated [of P key batch]
    by (simp add: loadVaultItems_fetched [OF assms] sortByUpdatedDesc_def)
qed

text \<open>
  The theorem at the three sample envelopes, of which the second is corrupted: the two others
  are in the working set, one envelope failed, and the console has its two lines.
\<close>

theorem hydrate_isolates_failures_witness:
  "fst (db_getItems ''u1'' threeDocs) = Inr [env1, env2, env3]
   \<and> map v_title (items (fst (loadVaultItems toyPlatform ''u1'' 7 (initialState, threeDocs))))
       = [''y'', ''x'']
   \<and> length (filter (decryptFails toyPlatform 7) [env1, env2, env3]) = 1
   \<and> console (snd (loadVaultItems toyPlatform ''u1'' 7 (initialState, threeDocs)))
       = [''Decryption failed'', ''Failed to decrypt item b'']"
proof -
  have h: "fst (db_getItems ''u1'' threeDocs) = Inr [env1, env2, env3]"
    by code_simp
  have f: "length (filter (decryptFails toyPlatform 7) [env1, env2, env3]) = 1"
    by code_simp
  have t: "map v_title (items (fst (loadVaultItems toyPlatform ''u1'' 7 (initialState, threeDocs))))
             = [''y'', ''x'']"
    by code_simp
  have c: "console threeDocs @ concat (map (failureLines toyPlatform 7) [env1, env2, env3])
             = [''Decryption failed'', ''Failed to decrypt item b'']"
    by code_simp
  from hydrate_isolates_failures [OF h, of toyPlatform 7 initialState] h f t c
  show ?thesis by simp
qed

text \<open>
  Claim C1 as stated fails: hydrate does not return a count of failures. A batch with one
  corrupted envelope and the same batch without it leave the same state behind.
\<close>

theorem hydrate_failure_count_counterexample:
  "fst (loadVaultItems toyPlatform ''u1'' 7
          (initialState, toyWorld\<lparr>docs := [(''a'', env1), (''b'', env2)]\<rparr>))
     = fst (loadVaultItems toyPlatform ''u1'' 7
              (initialState, toyWorld\<lparr>docs := [(''a'', env1)]\<rparr>))
   \<and> length (filter (decryptFails toyPlatform 7) [env1, env2]) = 1
   \<and> length (filter (decryptFails toyPlatform 7) [env1]) = 0"
  by code_simp

subsection \<open>C10: a hydrated record carries the id of its envelope\<close>

text \<open>
  Claim C10. Every record that \<open>loadVaultItems\<close> puts into the working set is the plaintext
  of an envelope of the batch with its \<open>id\<close> overwritten by the envelope's id, so its id is
  that envelope's id; and the ids in the working set are exactly the ids of the envelopes that
  decrypted, each as often as it occurs.
\<close>

theorem hydrate_keeps_envelope_id:
  assumes "fst (db_getItems u w) = Inr batch"
  shows "(\<forall>r \<in> set (items (fst (loadVaultItems P u key (s, w)))).
            \<exists>e \<in> set batch. \<exists>d. decryptData_try P (e_data e) (e_iv e) key = Inr d
                \<and> r = d\<lparr>v_id := e_id e\<rparr> \<and> v_id r = e_id e)
       \<and> mset (map v_id (items (fst (loadVaultItems P u key (s, w)))))
           = mset (map e_id (filter (\<lambda>e. \<not> decryptFails P key e) batch))"
proof -
  have a: "\<exists>e \<in> set batch. \<exists>d. decryptData_try P (e_data e) (e_iv e) key = Inr d
              \<and> r = d\<lparr>v_id := e_id e\<rparr> \<and> v_id r = e_id e"
    if "r \<in> set (List.map_filter (hydrated P key) batch)" for r
  proof -
    from that obtain e where e: "e \<in> set batch" "hydrated P key e = Some r"
      by (auto simp: set_map_filter)
    then obtain d where "decryptData_try P (e_data e) (e_iv e) key = Inr d" "r = d\<lparr>v_id := e_id e\<rparr>"
      by (auto simp: hydrated_def split: sum.splits)
    with e show ?thesis by auto
  qed
  have "mset (map v_id (sortByUpdatedDesc (List.map_filter (hydrated P key) batch)))
          = mset (map v_id (List.map_filter (hydrated P key) batch))"
    by (simp add: sortByUpdatedDesc_def)
  then have b: "mset (map v_id (sortByUpdatedDesc (List.map_filter (hydrated P key) batch)))
          = mset (map e_id (filter (\<lambda>e. \<not> decryptFails P key e) batch))"
    by (simp only: map_id_hydrated)
  show ?thesis
    using a b by (simp add: loadVaultItems_fetched [OF assms] sortByUpdatedDesc_def)
qed

text \<open>
  The theorem at the sample envelopes: the plaintexts carry the id \<open>embedded\<close>, the records
  in the working set carry \<open>c\<close> and \<open>a\<close>, the ids of the two envelopes that decrypt.
\<close>

theorem hydrate_keeps_envelope_id_witness:
  "fst (db_getItems ''u1'' threeDocs) = Inr [env1, env2, env3]
   \<and> map v_id (items (fst (loadVaultItems toyPlatform ''u1'' 7 (initialState, threeDocs))))
       = [''c'', ''a'']
   \<and> map_option v_id (hydrated toyPlatform 7 env1) = Some ''a''
   \<and> decryptData_try toyPlatform (e_data env1) (e_iv env1) 7
       = Inr (toyBlank\<lparr>v_title := ''x'', v_updatedAt := 5\<rparr>)
   \<and> mset (map e_id (filter (\<lambda>e. \<not> decryptFails toyPlatform 7 e) [env1, env2, env3]))
       = mset [''c'', ''a'']"
proof -
  have h: "fst (db_getItems ''u1'' threeDocs) = Inr [env1, env2, env3]"
    by code_simp
  have i: "map v_id (items (fst (loadVaultItems toyPlatform ''u1'' 7 (initialState, threeDocs))))
             = [''c'', ''a'']"
    by code_simp
  have j: "map_option v_id (hydrated toyPlatform 7 env1) = Some ''a''"
    by code_simp
  have k: "decryptData_try toyPlatform (e_data env1) (e_iv env1) 7
             = Inr (toyBlank\<lparr>v_title := ''x'', v_updatedAt := 5\<rparr>)"
    by code_simp
  have "mset (map v_id (items (fst (loadVaultItems toyPlatform ''u1'' 7 (initialState, threeDocs)))))
          = mset (map e_id (filter (\<lambda>e. \<not> decryptFails toyPlatform 7 e) [env1, env2, env3]))"
    using hydrate_keeps_envelope_id [OF h, of toyPlatform 7 initialState] by (rule conjunct2)
  then have m: "mset (map e_id (filter (\<lambda>e. \<not> decryptFails toyPlatform 7 e) [env1, env2, env3]))
          = mset [''c'', ''a'']"
    by (simp only: i)
  from h i j k m show ?thesis by (intro conjI)
qed

subsection \<open>C3: the working set is ordered by \<open>updatedAt\<close>, newest first\<close>

text \<open>
  Claim C3. For every fetched batch the working set that \<open>loadVaultItems\<close> produces is sorted
  by \<open>updatedAt\<close> descending. Records with the same \<open>updatedAt\<close> stand in the order in
  which their envelopes were fetched, a deterministic tie-break. The order does not depend
  on anything but the batch and the key: a second call that fetches the same batch, from
  whatever state and world, produces the same list.
\<close>

theorem hydrate_sorted_desc:
  assumes "fst (db_getItems u w) = Inr batch" and "fst (db_getItems u w2) = Inr batch"
  shows "sorted_wrt (\<lambda>a b. v_updatedAt a \<ge> v_updatedAt b)
           (items (fst (loadVaultItems P u key (s, w))))
       \<and> (\<forall>t. filter (\<lambda>r. v_updatedAt r = t) (items (fst (loadVaultItems P u key (s, w))))
               = filter (\<lambda>r. v_updatedAt r = t) (List.map_filter (hydrated P key) batch))
       \<and> items (fst (loadVaultItems P u key (s2, w2)))
           = items (fst (loadVaultItems P u key (s, w)))"
proof -
  let ?xs = "List.map_filter (hydrated P key) batch"
  have "sorted (map (\<lambda>a. - v_updatedAt a) (sortByUpdatedDesc ?xs))"
    unfolding sortByUpdatedDesc_def by (rule sorted_sort_key)
  then have a: "sorted_wrt (\<lambda>a b. v_updatedAt a \<ge> v_updatedAt b) (sortByUpdatedDesc ?xs)"
    by (simp add: sorted_map)
  have b: "filter (\<lambda>r. v_updatedAt r = t) (sortByUpdatedDesc ?xs)
             = filter (\<lambda>r. v_updatedAt r = t) ?xs" for t
    using sort_key_stable [of "\<lambda>a. - v_updatedAt a" "- t" ?xs]
    by (simp add: sortByUpdatedDesc_def)
  show ?thesis
    using a b
    by (simp add: loadVaultItems_fetched [OF assms(1)] loadVaultItems_fetched [OF assms(2)])
qed

text \<open>
  The theorem at four sample envelopes: the record of 9 comes first, the two records of 5
  follow in fetch order (\<open>a\<close> before \<open>d\<close>), also when the call starts from another state
  and another console.
\<close>

theorem hydrate_sorted_desc_witness:
  "fst (db_getItems ''u1'' fourDocs) = Inr [env1, env2, env3, env4]
   \<and> fst (db_getItems ''u1'' (console_error ''earlier'' fourDocs)) = Inr [env1, env2, env3, env4]
   \<and> map (\<lambda>r. (v_id r, v_updatedAt r))
         (items (fst (loadVaultItems toyPlatform ''u1'' 7 (initialState, fourDocs))))
       = [(''c'', 9), (''a'', 5), (''d'', 5)]
   \<and> items (fst (loadVaultItems toyPlatform ''u1'' 7
               (initialState\<lparr>items := [toyBlank]\<rparr>, console_error ''earlier'' fourDocs)))
       = items (fst (loadVaultItems toyPlatform ''u1'' 7 (initialState, fourDocs)))"
proof -
  have h: "fst (db_getItems ''u1'' fourDocs) = Inr [env1, env2, env3, env4]"
    by code_simp
  have h2: "fst (db_getItems ''u1'' (console_error ''earlier'' fourDocs))
              = Inr [env1, env2, env3, env4]"
    by code_simp
  have i: "map (\<lambda>r. (v_id r, v_updatedAt r))
             (items (fst (loadVaultItems toyPlatform ''u1'' 7 (initialState, fourDocs))))
           = [(''c'', 9), (''a'', 5), (''d'', 5)]"
    by code_simp
  from hydrate_sorted_desc [OF h h2, of toyPlatform 7 initialState "initialState\<lparr>items := [toyBlank]\<rparr>"]
    h h2 i
  show ?thesis by (intro conjI) simp_all
qed

subsection \<open>C2: decryption inverts encryption\<close>

lemma byte_mod: "word_of_nat (unat (b :: byte) mod 256) = b"
proof -
  have "unat b < 2 ^ LENGTH(8)" by (rule unsigned_less)
  then have "unat b mod 256 = unat b" by simp
  then show ?thesis by simp
qed

lemma buffer_chars_roundtrip:
  "map (\<lambda>c. word_of_nat (of_char c)) (map (\<lambda>b. char_of (unat b)) (buffer :: bytes)) = buffer"
  by (induction buffer) (simp_all add: byte_mod)

lemma base64_roundtrip:
  assumes "\<forall>s. atob P (btoa P s) = Some s"
  shows "base64ToBuffer P (bufferToBase64 P buffer) = Inr buffer"
  using assms buffer_chars_roundtrip [of buffer]
  by (simp add: base64ToBuffer_def bufferToBase64_def)

text \<open>
  Claim C2. Let the platform keep its contracts: \<open>atob\<close> decodes what \<open>btoa\<close> encoded,
  AES-GCM under key \<open>k\<close> encrypts every message and decrypts the result with the same nonce
  to that message, and the record \<open>r\<close> survives \<open>JSON.stringify\<close>, UTF-8 encoding,
  decoding and \<open>JSON.parse\<close> (the serialization is lossless on it). Then \<open>encryptData\<close>
  returns an envelope, and \<open>decryptData\<close> on its ciphertext and iv with the same key returns
  \<open>r\<close>, without logging anything.
\<close>

theorem decrypt_encrypt_roundtrip:
  assumes b64: "\<forall>s. atob P (btoa P s) = Some s"
      and aes: "\<forall>nonce m. \<exists>c. subtle_encrypt P k nonce m = Some c \<and> subtle_decrypt P k nonce c = Some m"
      and json: "json_parse P (utf8_decode P (utf8_encode P (json_stringify P r))) = Some r"
  shows "\<exists>env. fst (encryptData P r k w) = Inr env
            \<and> decryptData P (cipherText env) (iv env) k w2 = (Inr r, w2)"
proof -
  let ?nonce = "fst (getRandomValues 12 w)"
  let ?m = "utf8_encode P (json_stringify P r)"
  from aes obtain c where c: "subtle_encrypt P k ?nonce ?m = Some c" "subtle_decrypt P k ?nonce c = Some ?m"
    by blast
  let ?env = "\<lparr>cipherText = bufferToBase64 P c, iv = bufferToBase64 P ?nonce\<rparr>"
  have e: "fst (encryptData P r k w) = Inr ?env"
    using c(1) by (cases "getRandomValues 12 w") (simp add: encryptData_def)
  have "decryptData_try P (cipherText ?env) (iv ?env) k = Inr r"
    using c(2) json by (simp add: decryptData_try_def base64_roundtrip [OF b64])
  then have "decryptData P (cipherText ?env) (iv ?env) k w2 = (Inr r, w2)"
    by (simp add: decryptData_def)
  with e show ?thesis by blast
qed

text \<open>The theorem on the small platform, at the record \<open>example\<close> and key 7.\<close>

theorem decrypt_encrypt_roundtrip_witness:
  "(\<forall>s. atob toyPlatform (btoa toyPlatform s) = Some s)
   \<and> (\<forall>nonce m. \<exists>c. subtle_encrypt toyPlatform 7 nonce m = Some c \<and> subtle_decrypt toyPlatform 7 nonce c = Some m)
   \<and> json_parse toyPlatform (utf8_decode toyPlatform (utf8_encode toyPlatform (json_stringify toyPlatform example))) = Some example
   \<and> (\<exists>env. fst (encryptData toyPlatform example 7 toyWorld) = Inr env
            \<and> decryptData toyPlatform (cipherText env) (iv env) 7 toyWorld = (Inr example, toyWorld))"
proof -
  have a: "\<forall>s. atob toyPlatform (btoa toyPlatform s) = Some s"
    by (simp add: toyPlatform_def)
  have b: "\<forall>nonce m. \<exists>c. subtle_encrypt toyPlatform 7 nonce m = Some c \<and> subtle_decrypt toyPlatform 7 nonce c = Some m"
    by (simp add: toyPlatform_def)
  have c: "json_parse toyPlatform (utf8_decode toyPlatform (utf8_encode toyPlatform (json_stringify toyPlatform example))) = Some example"
    by code_simp
  from decrypt_encrypt_roundtrip [OF a b c, of toyWorld toyWorld] a b c show ?thesis by blast
qed

subsection \<open>C9: a fresh 12-byte nonce for every encryption\<close>

lemma encryptData_world: "snd (encryptData P d key w) = snd (getRandomValues 12 w)"
  by (cases "getRandomValues 12 w") (simp add: encryptData_def split: option.splits)

lemma encryptData_iv:
  "fst (encryptData P d key w) = Inr p \<Longrightarrow> iv p = bufferToBase64 P (fst (getRandomValues 12 w))"
  by (cases "getRandomValues 12 w") (auto simp: encryptData_def split: option.splits)

lemma encryptEach_Cons:
  "fst (encryptEach P key (d # ds) w)
     = fst (encryptData P d key w) # fst (encryptEach P key ds (snd (getRandomValues 12 w)))"
  using encryptData_world [of P d key w]
  by (cases "encryptData P d key w"; cases "encryptEach P key ds (snd (encryptData P d key w))") simp

lemma payloads_Cons:
  "payloads (r # rs) = (case r of Inl _ \<Rightarrow> payloads rs | Inr p \<Rightarrow> p # payloads rs)"
  by (simp add: payloads_def List.map_filter_simps split: sum.splits)

lemma ivs_subset:
  "set (map iv (payloads (fst (encryptEach P key ds w))))
     \<subseteq> bufferToBase64 P ` set (noncesDrawn (length ds) w)"
proof (induction ds arbitrary: w)
  case Nil
  then show ?case by (simp add: payloads_def List.map_filter_simps)
next
  case (Cons d ds)
  show ?case
    using Cons.IH [of "snd (getRandomValues 12 w)"] encryptData_iv [of P d key w]
    by (auto simp: encryptEach_Cons payloads_Cons simp del: encryptEach.simps split: sum.splits)
qed

lemma ivs_distinct:
  assumes "inj (bufferToBase64 P)" and "distinct (noncesDrawn (length ds) w)"
  shows "distinct (map iv (payloads (fst (encryptEach P key ds w))))"
  using assms(2)
proof (induction ds arbitrary: w)
  case Nil
  then show ?case by (simp add: payloads_def List.map_filter_simps)
next
  case (Cons d ds)
  let ?w1 = "snd (getRandomValues 12 w)"
  let ?n0 = "fst (getRandomValues 12 w)"
  from Cons.prems have fresh: "?n0 \<notin> set (noncesDrawn (length ds) ?w1)"
    and rest: "distinct (noncesDrawn (length ds) ?w1)" by simp_all
  have tl: "distinct (map iv (payloads (fst (encryptEach P key ds ?w1))))"
    using Cons.IH [OF rest] .
  have "bufferToBase64 P ?n0 \<notin> bufferToBase64 P ` set (noncesDrawn (length ds) ?w1)"
    using fresh assms(1) by (auto dest: injD)
  then have hd: "bufferToBase64 P ?n0 \<notin> set (map iv (payloads (fst (encryptEach P key ds ?w1))))"
    using ivs_subset [of P key ds ?w1] by blast
  show ?case
  proof (cases "fst (encryptData P d key w)")
    case (Inl e)
    with tl show ?thesis
      by (simp add: encryptEach_Cons payloads_Cons del: encryptEach.simps)
  next
    case (Inr p)
    with tl hd encryptData_iv [OF Inr] show ?thesis
      by (simp add: encryptEach_Cons payloads_Cons del: encryptEach.simps)
  qed
qed

lemma noncesDrawn_length: "n \<in> set (noncesDrawn k w) \<Longrightarrow> length n = 12"
  by (induction k arbitrary: w) (auto simp: getRandomValues_def)

lemma bufferToBase64_inj:
  assumes "\<forall>s. atob P (btoa P s) = Some s"
  shows "inj (bufferToBase64 P)"
proof (rule injI)
  fix x y assume "bufferToBase64 P x = bufferToBase64 P y"
  then have "base64ToBuffer P (bufferToBase64 P x) = base64ToBuffer P (bufferToBase64 P y)" by simp
  then show "x = y" by (simp add: base64_roundtrip [OF assms])
qed

lemma encryptData_payload:
  assumes "fst (encryptData P d key w) = Inr p"
  shows "\<exists>c. subtle_encrypt P key (fst (getRandomValues 12 w))
               (utf8_encode P (json_stringify P d)) = Some c
           \<and> cipherText p = bufferToBase64 P c
           \<and> iv p = bufferToBase64 P (fst (getRandomValues 12 w))"
  using assms
  by (cases "getRandomValues 12 w") (auto simp: encryptData_def split: option.splits)

lemma payloads_use_drawn_nonce:
  assumes "p \<in> set (payloads (fst (encryptEach P key ds w)))"
  shows "\<exists>nonce \<in> set (noncesDrawn (length ds) w). \<exists>d \<in> set ds. \<exists>c.
           subtle_encrypt P key nonce (utf8_encode P (json_stringify P d)) = Some c
         \<and> cipherText p = bufferToBase64 P c \<and> iv p = bufferToBase64 P nonce"
  using assms
proof (induction ds arbitrary: w)
  case Nil
  then show ?case by (simp add: payloads_def List.map_filter_simps)
next
  case (Cons d ds)
  let ?w1 = "snd (getRandomValues 12 w)"
  from Cons.prems
  consider (head) "fst (encryptData P d key w) = Inr p"
    | (tail) "p \<in> set (payloads (fst (encryptEach P key ds ?w1)))"
    by (auto simp: encryptEach_Cons payloads_Cons simp del: encryptEach.simps split: sum.splits)
  then show ?case
  proof cases
    case head
    from encryptData_payload [OF head] obtain c where
      c: "subtle_encrypt P key (fst (getRandomValues 12 w))
            (utf8_encode P (json_stringify P d)) = Some c"
         "cipherText p = bufferToBase64 P c"
         "iv p = bufferToBase64 P (fst (getRandomValues 12 w))"
      by blast
    have "fst (getRandomValues 12 w) \<in> set (noncesDrawn (length (d # ds)) w)"
      and "d \<in> set (d # ds)" by simp_all
    with c show ?thesis by blast
  next
    case tail
    from Cons.IH [OF tail] obtain nonce d' c where
      n: "nonce \<in> set (noncesDrawn (length ds) ?w1)" "d' \<in> set ds"
         "subtle_encrypt P key nonce (utf8_encode P (json_stringify P d')) = Some c"
         "cipherText p = bufferToBase64 P c" "iv p = bufferToBase64 P nonce"
      by blast
    from n(1,2) have "nonce \<in> set (noncesDrawn (length (d # ds)) w)"
      and "d' \<in> set (d # ds)" by simp_all
    with n(3-5) show ?thesis by blast
  qed
qed

text \<open>
  Claim C9. \<open>encryptData\<close> takes the record and the key and nothing else from its caller:
  it draws the nonce itself, 12 bytes from \<open>getRandomValues\<close>. When the generator delivers
  different values to the N draws (fresh randomness on each call) and base64 can be decoded,
  the envelopes of N successive \<open>encryptData\<close> calls under one key carry pairwise
  different \<open>iv\<close> fields; each \<open>iv\<close> decodes to one of the drawn nonces, 12 bytes long,
  and the ciphertext beside it was made by AES-GCM with that nonce.
\<close>

theorem nonce_uniqueness:
  assumes b64: "\<forall>s. atob P (btoa P s) = Some s"
      and fresh: "distinct (noncesDrawn (length ds) w)"
  shows "distinct (map iv (payloads (fst (encryptEach P key ds w))))
       \<and> (\<forall>p \<in> set (payloads (fst (encryptEach P key ds w))).
             \<exists>nonce. base64ToBuffer P (iv p) = Inr nonce \<and> length nonce = 12
                 \<and> nonce \<in> set (noncesDrawn (length ds) w)
                 \<and> (\<exists>d \<in> set ds. \<exists>c.
                       subtle_encrypt P key nonce (utf8_encode P (json_stringify P d)) = Some c
                     \<and> cipherText p = bufferToBase64 P c))"
proof -
  have d: "distinct (map iv (payloads (fst (encryptEach P key ds w))))"
    using ivs_distinct [OF bufferToBase64_inj [OF b64] fresh] .
  have "\<exists>nonce. base64ToBuffer P (iv p) = Inr nonce \<and> length nonce = 12
            \<and> nonce \<in> set (noncesDrawn (length ds) w)
            \<and> (\<exists>d \<in> set ds. \<exists>c.
                  subtle_encrypt P key nonce (utf8_encode P (json_stringify P d)) = Some c
                \<and> cipherText p = bufferToBase64 P c)"
    if "p \<in> set (payloads (fst (encryptEach P key ds w)))" for p
  proof -
    from payloads_use_drawn_nonce [OF that] obtain n d c where
      n: "n \<in> set (noncesDrawn (length ds) w)" "d \<in> set ds"
         "subtle_encrypt P key n (utf8_encode P (json_stringify P d)) = Some c"
         "cipherText p = bufferToBase64 P c" "iv p = bufferToBase64 P n"
      by blast
    have "base64ToBuffer P (iv p) = Inr n" "length n = 12"
      using base64_roundtrip [OF b64, of n] noncesDrawn_length [OF n(1)] n(5) by simp_all
    with n show ?thesis by blast
  qed
  with d show ?thesis by blast
qed

text \<open>The theorem on the small platform, at three encryptions under key 7.\<close>

theorem nonce_uniqueness_witness:
  "(\<forall>s. atob toyPlatform (btoa toyPlatform s) = Some s)
   \<and> distinct (noncesDrawn (length threeItems) toyWorld)
   \<and> length (payloads (fst (encryptEach toyPlatform 7 threeItems toyWorld))) = 3
   \<and> distinct (map iv (payloads (fst (encryptEach toyPlatform 7 threeItems toyWorld))))"
proof -
  have a: "\<forall>s. atob toyPlatform (btoa toyPlatform s) = Some s"
    by (simp add: toyPlatform_def)
  have b: "distinct (noncesDrawn (length threeItems) toyWorld)"
    by code_simp
  have c: "length (payloads (fst (encryptEach toyPlatform 7 threeItems toyWorld))) = 3"
    by code_simp
  from nonce_uniqueness [OF a b, of 7] a b c show ?thesis by blast
qed

subsection \<open>Saving and deleting\<close>



lemma showToast_state:
  "fst (showToast m ty (s, w))
     = s\<lparr>toasts := toasts s @ [\<lparr>t_id = toString (clock w (reads w)), t_message = m, t_type = ty\<rparr>]\<rparr>"
  and showToast_world: "snd (showToast m ty (s, w)) = w\<lparr>reads := Suc (reads w)\<rparr>"
  by (simp_all add: showToast_def Date_now_def)


lemma newItemOf_stamps:
  "(v_createdAt (fst (newItemOf item w)), v_updatedAt (fst (newItemOf item w)))
     = (case p_createdAt item of
          None \<Rightarrow> (clock w (reads w), clock w (Suc (reads w)))
        | Some c \<Rightarrow> if c = 0 then (clock w (reads w), clock w (Suc (reads w)))
                    else (c, clock w (reads w)))"
  by (simp add: newItemOf_def randomUUID_def Date_now_def split: option.splits prod.splits)

lemma newItemOf_frame:
  "docs (snd (newItemOf item w)) = docs w \<and> storeUp (snd (newItemOf item w)) = storeUp w
   \<and> console (snd (newItemOf item w)) = console w"
  by (simp add: newItemOf_def randomUUID_def Date_now_def split: option.splits prod.splits)

lemma encryptData_frame:
  "docs (snd (encryptData P d key w)) = docs w \<and> storeUp (snd (encryptData P d key w)) = storeUp w
   \<and> console (snd (encryptData P d key w)) = console w"
  by (simp add: encryptData_def getRandomValues_def split: option.splits prod.splits)

lemma save_locked:
  "user s = None \<or> masterKey s = None \<Longrightarrow> handleSaveItem P item (s, w) = (s, w)"
  by (auto simp: handleSaveItem_def split: option.splits)

lemma save_unlocked:
  assumes "user s = Some u" and "masterKey s = Some key"
      and "newItemOf item w = (newItem, w3)"
      and "encryptData P newItem key w3 = (r, w4)"
  shows "handleSaveItem P item (s, w) =
     (case r of
        Inl e \<Rightarrow> showToast ''Failed to save item'' error (s, console_error (failureName e) w4)
      | Inr payload \<Rightarrow>
          if storeUp w
          then showToast ''Item saved securely'' success
                 (s\<lparr>items := upsertItems newItem (items s), isModalOpen := False,
                    editingItem := None\<rparr>,
                  w4\<lparr>docs := AList.update (v_id newItem) (envelopeOf u newItem payload) (docs w)\<rparr>)
          else showToast ''Failed to save item'' error
                 (s, console_error ''FirestoreError''
                       (console_error ''Error saving item to Firestore:'' w4)))"
proof -
  have "storeUp w4 = storeUp w" "docs w4 = docs w"
    using newItemOf_frame [of item w] encryptData_frame [of P newItem key w3] assms(3,4)
    by simp_all
  then show ?thesis
    using assms
    by (simp add: handleSaveItem_def db_saveItem_def envelopeOf_def split: sum.splits)
qed



lemma save_items_stored:
  assumes "user s = Some u" and "masterKey s = Some key"
      and "\<forall>nonce m. subtle_encrypt P key nonce m \<noteq> None" and "storeUp w"
  shows "items (fst (handleSaveItem P item (s, w)))
           = upsertItems (fst (newItemOf item w)) (items s)"
proof -
  obtain newItem w3 where n: "newItemOf item w = (newItem, w3)"
    by (cases "newItemOf item w")
  obtain r w4 where e: "encryptData P newItem key w3 = (r, w4)"
    by (cases "encryptData P newItem key w3")
  from assms(3) obtain c where "subtle_encrypt P key (fst (getRandomValues 12 w3))
      (utf8_encode P (json_stringify P newItem)) = Some c"
    by (meson option.exhaust)
  with e obtain payload where r: "r = Inr payload"
    by (cases "getRandomValues 12 w3") (auto simp: encryptData_def)
  show ?thesis
    using save_unlocked [OF assms(1,2) n e] r n assms(4) by (simp add: showToast_state)
qed

lemma loadVaultItems_store_down:
  assumes "\<not> storeUp w"
  shows "loadVaultItems P u key (s, w) =
     (s\<lparr>toasts := toasts s @ [\<lparr>t_id = toString (clock w (reads w)),
                                t_message = ''Error loading vault from cloud'', t_type = error\<rparr>],
        loadingItems := False\<rparr>,
      w\<lparr>console := console w @ [''Error fetching items from Firestore:'', ''FirestoreError''],
        reads := Suc (reads w)\<rparr>)"
  using assms
  by (simp add: loadVaultItems_def loadVaultItems_begin_def loadVaultItems_resume_def
        db_getItems_def showToast_def Date_now_def console_error_def)



subsection \<open>C5: upsert while unlocked\<close>


text \<open>
  A \<open>createdAt\<close> is a reading of \<open>Date.now()\<close>: with a clock that never reads 0, no
  record that \<open>handleSaveItem\<close> builds has a \<open>createdAt\<close> of 0, so none comes back to it
  from the working set.
\<close>

lemma newItemOf_createdAt_nonzero:
  assumes "\<forall>n. clock w n \<noteq> 0" and "p_createdAt item \<noteq> Some 0"
  shows "v_createdAt (fst (newItemOf item w)) \<noteq> 0"
proof -
  have "v_createdAt (fst (newItemOf item w))
          = (case p_createdAt item of None \<Rightarrow> clock w (reads w)
             | Some c \<Rightarrow> if c = 0 then clock w (reads w) else c)"
    using newItemOf_stamps [of item w] by (auto split: option.splits if_splits)
  with assms show ?thesis by (auto split: option.splits)
qed




subsection \<open>C4: upsert and remove without a session key\<close>

lemma handleDeleteItem_store_up:
  assumes "storeUp w"
  shows "handleDeleteItem i True (s, w) =
      (s\<lparr>items := filter (\<lambda>x. v_id x \<noteq> i) (items s),
         toasts := toasts s @ [\<lparr>t_id = toString (clock w (reads w)),
                                 t_message = ''Item deleted'', t_type = success\<rparr>]\<rparr>,
       w\<lparr>docs := AList.delete i (docs w), reads := Suc (reads w)\<rparr>)"
  using assms
  by (simp add: handleDeleteItem_def db_deleteItem_def showToast_def Date_now_def)

text \<open>
  Claim C4, as amended. A call of \<open>handleSaveItem\<close> made while no session key (or no
  user) is present returns without raising anything and leaves the state and the world
  (store, console, clock) exactly as they were: a silent no-op behind the guard
  \<open>if (!user || !masterKey) return\<close>. \<open>handleDeleteItem\<close> does not test the session:
  in every state, with or without a session key, once confirmed and the store reachable it
  deletes the document, filters the working set and shows the toast "Item deleted".
\<close>

theorem crud_without_session_key:
  "(user s = None \<or> masterKey s = None \<longrightarrow> handleSaveItem P item (s, w) = (s, w))
   \<and> (storeUp w \<longrightarrow>
         docs (snd (handleDeleteItem i True (s, w))) = AList.delete i (docs w)
       \<and> items (fst (handleDeleteItem i True (s, w))) = filter (\<lambda>x. v_id x \<noteq> i) (items s)
       \<and> masterKey (fst (handleDeleteItem i True (s, w))) = masterKey s
       \<and> shown (fst (handleDeleteItem i True (s, w))) = shown s @ [(''Item deleted'', success)]
       \<and> (\<exists>t. toasts (fst (handleDeleteItem i True (s, w))) = toasts s @ [t]
              \<and> t_message t = ''Item deleted'' \<and> t_type t = success))"
  using save_locked [of s P item w]
  by (auto simp: handleDeleteItem_store_up shown_def)

text \<open>
  The theorem in the locked session of the sample user and in her unlocked session, over
  the store of three envelopes: the save is a no-op in the locked session, and the delete
  goes through in both.
\<close>

theorem crud_without_session_key_witness:
  "masterKey lockedState = None \<and> masterKey loadedState = Some 7 \<and> storeUp threeDocs
   \<and> handleSaveItem toyPlatform loginItem (lockedState, threeDocs) = (lockedState, threeDocs)
   \<and> docs (snd (handleDeleteItem ''a'' True (lockedState, threeDocs)))
        = AList.delete ''a'' (docs threeDocs)
   \<and> docs (snd (handleDeleteItem ''a'' True (loadedState, threeDocs)))
        = AList.delete ''a'' (docs threeDocs)
   \<and> map fst (AList.delete ''a'' (docs threeDocs)) = [''b'', ''c'']
   \<and> items (fst (handleDeleteItem ''embedded'' True (loadedState, threeDocs))) = []
   \<and> shown (fst (handleDeleteItem ''embedded'' True (loadedState, threeDocs)))
        = [(''Item deleted'', success)]"
proof -
  have a: "masterKey lockedState = None" "masterKey loadedState = Some 7"
    by (simp_all add: loadedState_def unlockedState_def lockedState_def initialState_def)
  have b: "storeUp threeDocs"
    by (simp add: threeDocs_def toyWorld_def)
  have c: "map fst (AList.delete ''a'' (docs threeDocs)) = [''b'', ''c'']"
    by code_simp
  have l: "items loadedState = [example]" "v_id example = ''embedded''" "shown loadedState = []"
    by (simp_all add: loadedState_def example_def toyBlank_def shown_def unlockedState_def
          lockedState_def initialState_def)
  from crud_without_session_key [of lockedState toyPlatform loginItem threeDocs "''a''"]
    crud_without_session_key [of loadedState toyPlatform loginItem threeDocs "''a''"]
    crud_without_session_key [of loadedState toyPlatform loginItem threeDocs "''embedded''"]
    a b c l
  show ?thesis by simp
qed

text \<open>
  Claim C4 as stated fails: in a locked session \<open>handleSaveItem\<close> returns the state and the
  world it was given, with no toast and no log line, and \<open>handleDeleteItem\<close> deletes from
  the store and reports success.
\<close>

theorem upsert_locked_silent_counterexample:
  "masterKey lockedState = None
   \<and> handleSaveItem toyPlatform loginItem (lockedState, toyWorld) = (lockedState, toyWorld)
   \<and> map t_message (toasts (fst (handleDeleteItem ''a'' True (lockedState, threeDocs))))
        = [''Item deleted'']
   \<and> map fst (docs (snd (handleDeleteItem ''a'' True (lockedState, threeDocs)))) = [''b'', ''c'']"
proof -
  have a: "masterKey lockedState = None"
    by (simp add: lockedState_def initialState_def)
  have b: "handleSaveItem toyPlatform loginItem (lockedState, toyWorld) = (lockedState, toyWorld)"
    by (simp add: handleSaveItem_def lockedState_def initialState_def)
  have c: "map t_message (toasts (fst (handleDeleteItem ''a'' True (lockedState, threeDocs))))
        = [''Item deleted'']"
    by code_simp
  have d: "map fst (docs (snd (handleDeleteItem ''a'' True (lockedState, threeDocs)))) = [''b'', ''c'']"
    by code_simp
  from a b c d show ?thesis by (intro conjI)
qed

subsection \<open>C8: unlocking with an empty master password\<close>

lemma loadVaultItems_session:
  "user (fst (loadVaultItems P u key (s, w))) = user s
   \<and> masterKey (fst (loadVaultItems P u key (s, w))) = masterKey s
   \<and> isVaultLocked (fst (loadVaultItems P u key (s, w))) = isVaultLocked s"
proof (cases "storeUp w")
  case True
  then have "fst (db_getItems u w) = Inr (filter (\<lambda>d. e_ownerId d = u) (map snd (docs w)))"
    by (simp add: db_getItems_def)
  then show ?thesis by (simp add: loadVaultItems_fetched)
next
  case False
  then show ?thesis by (simp add: loadVaultItems_store_down)
qed

lemma unlockVault_result:
  assumes "user s = Some u"
      and "stringToSalt P (take 24 (btoa P (uid u @ ''_salt_fixed_123''))) = Inr salt"
  shows "unlockVault P password (s, w) =
     (case deriveKey P password salt of
        Inr key \<Rightarrow> loadVaultItems P (uid u) key (s\<lparr>masterKey := Some key, isVaultLocked := False\<rparr>, w)
      | Inl e \<Rightarrow> showToast ''Failed to unlock vault'' error (s, console_error (failureName e) w))"
  using assms by (simp add: unlockVault_def split: sum.splits)

text \<open>
  Claim C8, as amended. \<open>unlockVault\<close> and \<open>deriveKey\<close> do not validate the master
  password: for every password, the empty one included, a signed-in user's attempt goes to key
  derivation, and its outcome is that of the derivation. When \<open>deriveKey\<close> returns a key,
  the key is stored and the vault is unlocked; only when it throws is the attempt rejected,
  with the toast "Failed to unlock vault" and the state otherwise unchanged.
\<close>

theorem unlock_without_password_check:
  assumes "user s = Some u"
      and "stringToSalt P (take 24 (btoa P (uid u @ ''_salt_fixed_123''))) = Inr salt"
  shows "case deriveKey P password salt of
           Inr key \<Rightarrow>
             masterKey (fst (unlockVault P password (s, w))) = Some key
           \<and> isVaultLocked (fst (unlockVault P password (s, w))) = False
         | Inl e \<Rightarrow>
             fst (unlockVault P password (s, w))
               = s\<lparr>toasts := toasts (fst (unlockVault P password (s, w)))\<rparr>
           \<and> shown (fst (unlockVault P password (s, w)))
               = shown s @ [(''Failed to unlock vault'', error)]"
proof (cases "deriveKey P password salt")
  case (Inl e)
  then show ?thesis
    by (simp add: unlockVault_result [OF assms] showToast_state shown_def)
next
  case (Inr key)
  then show ?thesis
    using loadVaultItems_session [of P "uid u" key "s\<lparr>masterKey := Some key, isVaultLocked := False\<rparr>" w]
    by (simp add: unlockVault_result [OF assms])
qed

lemma toy_salt:
  "stringToSalt toyPlatform (take 24 (btoa toyPlatform (uid alice @ ''_salt_fixed_123'')))
     = Inr (map (\<lambda>c. word_of_nat (of_char c)) ''u1_salt_fixed_123'')"
  by (simp add: stringToSalt_def base64ToBuffer_def toyPlatform_def alice_def)

lemma toy_derive_empty:
  "deriveKey toyPlatform [] salt = Inr 0"
  by (simp add: deriveKey_def getPasswordKey_def toyPlatform_def)

text \<open>The theorem on the small platform, for the empty password: the vault is unlocked.\<close>

theorem unlock_without_password_check_witness:
  "user lockedState = Some alice
   \<and> stringToSalt toyPlatform (take 24 (btoa toyPlatform (uid alice @ ''_salt_fixed_123'')))
       = Inr (map (\<lambda>c. word_of_nat (of_char c)) ''u1_salt_fixed_123'')
   \<and> deriveKey toyPlatform [] (map (\<lambda>c. word_of_nat (of_char c)) ''u1_salt_fixed_123'') = Inr 0
   \<and> masterKey (fst (unlockVault toyPlatform [] (lockedState, threeDocs))) = Some 0
   \<and> isVaultLocked (fst (unlockVault toyPlatform [] (lockedState, threeDocs))) = False"
proof -
  have a: "user lockedState = Some alice"
    by (simp add: lockedState_def)
  from unlock_without_password_check [OF a toy_salt, of "[]" threeDocs] a toy_salt toy_derive_empty
  show ?thesis by simp
qed

text \<open>
  Claim C8 as stated fails: the empty master password is not rejected. On the small platform,
  whose key derivation accepts it, the attempt ends with a session key, the vault unlocked
  and no toast.
\<close>

theorem unlock_empty_password_counterexample:
  "masterKey (fst (unlockVault toyPlatform [] (lockedState, threeDocs))) = Some 0
   \<and> isVaultLocked (fst (unlockVault toyPlatform [] (lockedState, threeDocs))) = False
   \<and> toasts (fst (unlockVault toyPlatform [] (lockedState, threeDocs))) = []"
proof -
  have a: "user lockedState = Some alice"
    by (simp add: lockedState_def)
  have g: "fst (db_getItems ''u1'' threeDocs) = Inr [env1, env2, env3]"
    by code_simp
  have "unlockVault toyPlatform [] (lockedState, threeDocs)
          = loadVaultItems toyPlatform ''u1'' 0
              (lockedState\<lparr>masterKey := Some 0, isVaultLocked := False\<rparr>, threeDocs)"
    by (simp add: unlockVault_result [OF a toy_salt] toy_derive_empty alice_def)
  then show ?thesis
    by (simp add: loadVaultItems_fetched [OF g] lockedState_def initialState_def)
qed

subsection \<open>C6: a failed store call leaves the local state alone\<close>





subsection \<open>C7: sign-out while a hydrate is in flight\<close>

text \<open>
  The sign-out callback discards the session at once, whatever the state: user, key and
  working set are gone and the vault is locked. The continuation of \<open>loadVaultItems\<close>
  does not look at the session: run after a sign-out, it fills the working set with the
  records of the batch it fetched.
\<close>

lemma logout_discards_session:
  "user (onAuthStateChanged None s) = None \<and> masterKey (onAuthStateChanged None s) = None
   \<and> isVaultLocked (onAuthStateChanged None s) = True \<and> items (onAuthStateChanged None s) = []"
  by (simp add: onAuthStateChanged_def)

lemma resume_after_logout:
  "items (fst (loadVaultItems_resume P key (Inr batch) (onAuthStateChanged None s, w)))
     = sortByUpdatedDesc (List.map_filter (hydrated P key) batch)
   \<and> user (fst (loadVaultItems_resume P key (Inr batch) (onAuthStateChanged None s, w))) = None
   \<and> masterKey (fst (loadVaultItems_resume P key (Inr batch) (onAuthStateChanged None s, w)))
       = None"
  by (simp add: resume_fetched onAuthStateChanged_def)

text \<open>
  Claim C7 fails on the code. In the sample run a sign-out arrives while \<open>loadVaultItems\<close>
  awaits the fetch. Right after the sign-out the working set is empty and the key is gone;
  when the fetch settles, the abandoned hydrate writes its two decrypted records into the
  working set of a session that has no user and no key.
\<close>

theorem logout_during_hydrate_keeps_cleartext:
  "items afterLogout = [] \<and> masterKey afterLogout = None \<and> user afterLogout = None
   \<and> user (fst afterResume) = None \<and> masterKey (fst afterResume) = None
   \<and> isVaultLocked (fst afterResume) = True
   \<and> map v_title (items (fst afterResume)) = [''y'', ''x'']"
  by code_simp


end
